theory Spec2Isabelle
  imports Main "HOL-Library.Sublist"
begin

section \<open>The SSRF guard \<open>safeFetch\<close>: data model\<close>

text \<open>
  The guard is one asynchronous function, \<open>safeFetch(raw)\<close>. Everything it does goes
  through the platform: \<open>new URL\<close>, \<open>dns.resolve4\<close>, a \<open>net.Socket\<close> raced against a
  \<open>setTimeout\<close> of 3000 ms, and the native \<open>fetch\<close>. The platform is a record of
  functions (the environment of one call); the function itself is translated statement by
  statement and returns the settled value of its promise together with the ordered list
  of platform operations that its own statements and callbacks performed.
\<close>

text \<open>The fields of the parsed \<open>URL\<close> object. \<open>port\<close> is \<open>None\<close> for the empty string
  that \<open>url.port\<close> holds when the URL names no port (or the default one of its scheme).\<close>

record url =
  protocol :: string
  hostname :: string
  port :: "nat option"

record response =
  status :: nat
  body :: string

text \<open>What the promise of \<open>safeFetch\<close> can be rejected with, by the place that raises it:
  the \<open>TypeError\<close> of \<open>new URL(raw)\<close>, a \<open>new Error(message)\<close> of the function's own,
  the rejection of \<open>dns.resolve4\<close> (its error code), the \<open>err\<close> of the socket's
  \<open>'error'\<close> event (its error code), the rejection of \<open>fetch\<close>.\<close>

datatype failure =
    UrlTypeError
  | Error string
  | DnsFault string
  | SocketFault string
  | FetchFault string

text \<open>The first event the socket emits after \<open>socket.connect(port, host, cb)\<close>, with the
  time in milliseconds, counted from the call, at which the event loop can deliver it:
  the connect callback (with the value of \<open>socket.remoteAddress\<close> read there, \<open>None\<close> for
  \<open>undefined\<close>), an \<open>'error'\<close> event, or nothing at all. A socket whose connect callback has
  run can still emit an \<open>'error'\<close> event later (a reset by the peer, say):
  \<open>socket_later_error\<close> gives its error, if there is one.\<close>

datatype socket_event =
    ConnectAt nat "string option"
  | ErrorAt nat string
  | Silent

text \<open>The last two fields are the two steps of the native \<open>fetch\<close>, see
  \<open>native_fetch\<close> below: its own resolution of a hostname at fetch time (the address it
  will connect to, or an error) and the retrieval of a URL from an address and a port.\<close>

record env =
  parse_url :: "string \<Rightarrow> url option"
  resolve4 :: "string \<Rightarrow> string + string list"
  socket_connect :: "nat \<Rightarrow> string option \<Rightarrow> socket_event"
  socket_later_error :: "nat \<Rightarrow> string option \<Rightarrow> string option"
  timer_wins_tie :: bool
  fetch_resolve :: "string \<Rightarrow> string + string"
  fetch_from :: "string \<Rightarrow> nat \<Rightarrow> string \<Rightarrow> string + response"

text \<open>The platform operations of a call, in the order they are performed. \<open>Fetch raw\<close> is
  the call \<open>fetch(raw)\<close>; what the fetch does inside is listed apart, as \<open>fetch_op\<close>s.\<close>

datatype action =
    DnsResolve4 string
  | SocketNew
  | SetTimeout nat
  | SocketOnceError
  | SocketConnect nat "string option"
  | ClearTimeout
  | SocketDestroy
  | SocketEnd
  | Fetch string

datatype fetch_op =
    FetchResolve string
  | FetchConnect nat string

section \<open>The address classification\<close>

text \<open>The regular expression
  \<^verbatim>\<open>/^(10\.|172\.(1[6-9]|2[0-9]|3[0-1])\.|192\.168\.|127\.|169\.254\.)/\<close>
  is anchored at the start only, so \<open>PRIVATE.test\<close> is a test on prefixes.\<close>

definition in_class :: "char \<Rightarrow> char \<Rightarrow> char \<Rightarrow> bool" where
  "in_class lo hi c \<longleftrightarrow> of_char lo \<le> (of_char c :: nat) \<and> (of_char c :: nat) \<le> of_char hi"

fun octet_16_31_dot :: "string \<Rightarrow> bool" where
  "octet_16_31_dot (a # b # c # _) \<longleftrightarrow>
     (a = CHR ''1'' \<and> in_class CHR ''6'' CHR ''9'' b
      \<or> a = CHR ''2'' \<and> in_class CHR ''0'' CHR ''9'' b
      \<or> a = CHR ''3'' \<and> in_class CHR ''0'' CHR ''1'' b)
     \<and> c = CHR ''.''"
| "octet_16_31_dot _ \<longleftrightarrow> False"

definition PRIVATE_test :: "string \<Rightarrow> bool" where
  "PRIVATE_test s \<longleftrightarrow>
     prefix ''10.'' s
     \<or> (prefix ''172.'' s \<and> octet_16_31_dot (drop 4 s))
     \<or> prefix ''192.168.'' s
     \<or> prefix ''127.'' s
     \<or> prefix ''169.254.'' s"

text \<open>\<open>RegExp.prototype.test\<close> converts its argument to a string: \<open>undefined\<close> becomes
  the string \<open>undefined\<close>.\<close>

definition to_string :: "string option \<Rightarrow> string" where
  "to_string v = (case v of None \<Rightarrow> ''undefined'' | Some s \<Rightarrow> s)"

section \<open>The messages of the function's own errors\<close>

text \<open>The two accented messages are written with the UTF-8 bytes of the source file.\<close>

definition msg_https_only :: string where
  "msg_https_only = ''Apenas HTTPS permitido''"

definition msg_private_first :: string where
  "msg_private_first =
     ''IP privado na primeira resolu'' @ [CHR 0xC3, CHR 0xA7, CHR 0xC3, CHR 0xA3] @ ''o''"

definition msg_timeout :: string where
  "msg_timeout = ''timeout handshake''"

definition msg_private_post :: string where
  "msg_private_post = ''IP privado ap'' @ [CHR 0xC3, CHR 0xB3] @ ''s handshake''"

section \<open>The handshake\<close>

text \<open>The timer of \<open>setTimeout(f, delay)\<close> cannot fire before \<open>delay\<close> milliseconds
  have passed, and fires before any socket event that becomes deliverable later. When both
  are due in the same millisecond the event loop decides (\<open>timer_wins_tie\<close>).\<close>

definition socket_first :: "env \<Rightarrow> nat \<Rightarrow> nat \<Rightarrow> bool" where
  "socket_first e delay t \<longleftrightarrow> t < delay \<or> (t = delay \<and> \<not> timer_wins_tie e)"

text \<open>The \<open>'error'\<close> listener of lines 84 to 88 is registered with \<open>once\<close>: it is removed
  only by running. When the connect callback has ended the socket and resolved the promise,
  the listener is still there, and an \<open>'error'\<close> event emitted afterwards runs it:
  \<open>clearTimeout\<close>, \<open>socket.destroy()\<close>, and a \<open>nok(err)\<close> that the settled promise
  ignores.\<close>

definition late_listener :: "env \<Rightarrow> string option \<Rightarrow> action list" where
  "late_listener e target =
     (case socket_later_error e 443 target of
        None \<Rightarrow> []
      | Some err \<Rightarrow> [ClearTimeout, SocketDestroy])"

text \<open>The body of the \<open>new Promise\<close> (lines 75 to 102). The first callback settles the
  promise: the timer's (destroy, reject with the timeout error), the \<open>'error'\<close>
  listener's (clear the timer, destroy, reject with the socket's error) or the connect
  callback's (clear the timer, read \<open>socket.remoteAddress\<close>, classify it). The result is
  the settled value, the operations up to there, and the operations of callbacks that run
  after the promise has settled. After \<open>socket.destroy()\<close> the socket emits no further
  \<open>'error'\<close> event and the timer is either cleared or has fired, so only the path that
  ends the socket and resolves has anything to follow.\<close>

definition handshake ::
  "env \<Rightarrow> string option \<Rightarrow> (failure + unit) \<times> action list \<times> action list" where
  "handshake e target =
     (let started = [SocketNew, SetTimeout 3000, SocketOnceError, SocketConnect 443 target] in
      case socket_connect e 443 target of
        Silent \<Rightarrow> (Inl (Error msg_timeout), started @ [SocketDestroy], [])
      | ErrorAt t err \<Rightarrow>
          if socket_first e 3000 t
          then (Inl (SocketFault err), started @ [ClearTimeout, SocketDestroy], [])
          else (Inl (Error msg_timeout), started @ [SocketDestroy], [])
      | ConnectAt t remote \<Rightarrow>
          if socket_first e 3000 t
          then (if PRIVATE_test (to_string remote)
                then (Inl (Error msg_private_post), started @ [ClearTimeout, SocketDestroy], [])
                else (Inr (), started @ [ClearTimeout, SocketEnd], late_listener e target))
          else (Inl (Error msg_timeout), started @ [SocketDestroy], []))"

section \<open>The native fetch\<close>

text \<open>The port an \<open>https\<close> URL is fetched from: the one it names, else the default 443.\<close>

definition effective_port :: "url \<Rightarrow> nat" where
  "effective_port u = (case port u of None \<Rightarrow> 443 | Some p \<Rightarrow> p)"

text \<open>Modelled from the spec: the native \<open>fetch\<close> is the platform's, no code of the
  repository. The specification describes it (sections 4.3 and 9) as the standard
  high-level fetch primitive applied to the original URL: it is given the hostname string,
  not an address, so it resolves the hostname itself at fetch time, a second resolution
  whose answer nothing ties to the first, and it retrieves the content from the address
  that this resolution gave. The result is the outcome of the fetch and the operations
  inside it.\<close>

definition native_fetch :: "env \<Rightarrow> string \<Rightarrow> (string + response) \<times> fetch_op list" where
  "native_fetch e raw =
     (case parse_url e raw of
        None \<Rightarrow> (Inl ''Invalid URL'', [])
      | Some u \<Rightarrow>
          (case fetch_resolve e (hostname u) of
             Inl err \<Rightarrow> (Inl err, [FetchResolve (hostname u)])
           | Inr addr \<Rightarrow>
               (fetch_from e addr (effective_port u) raw,
                [FetchResolve (hostname u), FetchConnect (effective_port u) addr])))"

section \<open>safeFetch\<close>

text \<open>\<open>ips[0]\<close> of an empty array is \<open>undefined\<close>. When the promise of the handshake
  resolves, \<open>fetch(raw)\<close> is called in the continuation of the \<open>await\<close>, before the event
  loop delivers any further event of the socket: what the late listener does comes after
  the call of the fetch.\<close>

definition first_ip :: "string list \<Rightarrow> string option" where
  "first_ip ips = (case ips of [] \<Rightarrow> None | ip # _ \<Rightarrow> Some ip)"

definition safeFetch :: "env \<Rightarrow> string \<Rightarrow> (failure + response) \<times> action list" where
  "safeFetch e raw =
     (case parse_url e raw of
        None \<Rightarrow> (Inl UrlTypeError, [])
      | Some u \<Rightarrow>
          if protocol u \<noteq> ''https:'' then (Inl (Error msg_https_only), [])
          else
            (case resolve4 e (hostname u) of
               Inl err \<Rightarrow> (Inl (DnsFault err), [DnsResolve4 (hostname u)])
             | Inr ips \<Rightarrow>
                 if list_ex PRIVATE_test ips
                 then (Inl (Error msg_private_first), [DnsResolve4 (hostname u)])
                 else
                   (case handshake e (first_ip ips) of
                      (Inl f, tr, later) \<Rightarrow> (Inl f, DnsResolve4 (hostname u) # tr @ later)
                    | (Inr _, tr, later) \<Rightarrow>
                        (case fst (native_fetch e raw) of
                           Inl err \<Rightarrow>
                             (Inl (FetchFault err),
                              DnsResolve4 (hostname u) # tr @ [Fetch raw] @ later)
                         | Inr resp \<Rightarrow>
                             (Inr resp,
                              DnsResolve4 (hostname u) # tr @ [Fetch raw] @ later)))))"

section \<open>IPv4 addresses and the private ranges\<close>

text \<open>\<open>dns.resolve4\<close> answers with IPv4 addresses in dotted decimal notation: four
  octets, each written in decimal without leading zeros.\<close>

record ipv4 =
  o1 :: nat
  o2 :: nat
  o3 :: nat
  o4 :: nat

definition ip :: "nat \<Rightarrow> nat \<Rightarrow> nat \<Rightarrow> nat \<Rightarrow> ipv4" where
  "ip a b c d = \<lparr>o1 = a, o2 = b, o3 = c, o4 = d\<rparr>"

definition wf_ipv4 :: "ipv4 \<Rightarrow> bool" where
  "wf_ipv4 a \<longleftrightarrow> o1 a < 256 \<and> o2 a < 256 \<and> o3 a < 256 \<and> o4 a < 256"

definition digit :: "nat \<Rightarrow> char" where
  "digit n = ''0123456789'' ! n"

definition show_octet :: "nat \<Rightarrow> string" where
  "show_octet n =
     (if n < 10 then [digit n]
      else if n < 100 then [digit (n div 10), digit (n mod 10)]
      else [digit (n div 100), digit (n div 10 mod 10), digit (n mod 10)])"

definition dotted :: "ipv4 \<Rightarrow> string" where
  "dotted a =
     show_octet (o1 a) @ ''.'' @ show_octet (o2 a) @ ''.'' @ show_octet (o3 a) @ ''.''
       @ show_octet (o4 a)"

text \<open>The ranges as the specification names them, in CIDR notation: an address is in
  \<open>net/len\<close> when its 32-bit value agrees with that of \<open>net\<close> on the leading \<open>len\<close>
  bits.\<close>

definition addr32 :: "ipv4 \<Rightarrow> nat" where
  "addr32 a = ((o1 a * 256 + o2 a) * 256 + o3 a) * 256 + o4 a"

definition in_cidr :: "ipv4 \<Rightarrow> ipv4 \<Rightarrow> nat \<Rightarrow> bool" where
  "in_cidr a net len \<longleftrightarrow> addr32 a div 2 ^ (32 - len) = addr32 net div 2 ^ (32 - len)"

definition in_private_range :: "ipv4 \<Rightarrow> bool" where
  "in_private_range a \<longleftrightarrow>
     in_cidr a (ip 10 0 0 0) 8 \<or> in_cidr a (ip 172 16 0 0) 12 \<or> in_cidr a (ip 192 168 0 0) 16
     \<or> in_cidr a (ip 127 0 0 0) 8 \<or> in_cidr a (ip 169 254 0 0) 16"

section \<open>Notions the properties are stated with\<close>

text \<open>The connect attempt completes within \<open>ms\<close> milliseconds when the socket has an
  event, success or failure, that is deliverable by then.\<close>

definition completes_within :: "nat \<Rightarrow> socket_event \<Rightarrow> bool" where
  "completes_within ms ev =
     (case ev of ConnectAt t _ \<Rightarrow> t \<le> ms | ErrorAt t _ \<Rightarrow> t \<le> ms | Silent \<Rightarrow> False)"

text \<open>The connection outcome that permits the retrieval: the handshake to the selected
  address completed within 3000 ms and the peer address read after it is not classified as
  private.\<close>

definition handshake_verified :: "env \<Rightarrow> string \<Rightarrow> bool" where
  "handshake_verified e raw =
     (case parse_url e raw of
        None \<Rightarrow> False
      | Some u \<Rightarrow>
          (case resolve4 e (hostname u) of
             Inl _ \<Rightarrow> False
           | Inr ips \<Rightarrow>
               (case socket_connect e 443 (first_ip ips) of
                  ConnectAt t remote \<Rightarrow> t \<le> 3000 \<and> \<not> PRIVATE_test (to_string remote)
                | _ \<Rightarrow> False)))"



section \<open>Concrete runs\<close>

text \<open>A parser that knows three URLs, and environments built around it: the answer of
  the resolver for \<open>example.com\<close> and the event of the socket are the parameters.\<close>

definition parse_example :: "string \<Rightarrow> url option" where
  "parse_example raw =
     (if raw = ''https://example.com/a.png''
      then Some \<lparr>protocol = ''https:'', hostname = ''example.com'', port = None\<rparr>
      else if raw = ''https://example.com:8443/a.png''
      then Some \<lparr>protocol = ''https:'', hostname = ''example.com'', port = Some 8443\<rparr>
      else if raw = ''http://example.com/a.png''
      then Some \<lparr>protocol = ''http:'', hostname = ''example.com'', port = None\<rparr>
      else None)"

definition png :: response where
  "png = \<lparr>status = 200, body = ''PNG''\<rparr>"

definition run_env :: "string list \<Rightarrow> socket_event \<Rightarrow> env" where
  "run_env ips ev =
     \<lparr>parse_url = parse_example,
      resolve4 = (\<lambda>h. if h = ''example.com'' then Inr ips else Inl ''ENOTFOUND''),
      socket_connect = (\<lambda>p target. ev),
      socket_later_error = (\<lambda>p target. None),
      timer_wins_tie = True,
      fetch_resolve = (\<lambda>h. Inr ''93.184.216.34''),
      fetch_from = (\<lambda>addr p raw. Inr png)\<rparr>"

text \<open>A run in which the name is rebound after the handshake: the resolver answers with a
  public address, the socket reaches it and is reset by the peer after it was ended, and
  the resolution of the fetch gives the link-local metadata address.\<close>

definition metadata :: response where
  "metadata = \<lparr>status = 200, body = ''iam-credentials''\<rparr>"

definition rebound_env :: env where
  "rebound_env =
     \<lparr>parse_url = parse_example,
      resolve4 = (\<lambda>h. if h = ''example.com'' then Inr [''93.184.216.34''] else Inl ''ENOTFOUND''),
      socket_connect = (\<lambda>p target. ConnectAt 40 (Some ''93.184.216.34'')),
      socket_later_error = (\<lambda>p target. Some ''ECONNRESET''),
      timer_wins_tie = True,
      fetch_resolve = (\<lambda>h. Inr ''169.254.169.254''),
      fetch_from = (\<lambda>addr p raw. if addr = ''169.254.169.254'' then Inr metadata else Inr png)\<rparr>"

section \<open>The classification on dotted decimal addresses\<close>

lemma lt10: "k < 10 \<Longrightarrow> k = 0 \<or> k = 1 \<or> k = 2 \<or> k = 3 \<or> k = 4 \<or> k = 5 \<or> k = 6 \<or> k = 7 \<or> k = 8 \<or> k = (9::nat)"
  by arith

lemma digit_iff:
  assumes "k < 10"
  shows "digit k = CHR ''0'' \<longleftrightarrow> k = 0" "digit k = CHR ''1'' \<longleftrightarrow> k = 1"
    "digit k = CHR ''2'' \<longleftrightarrow> k = 2" "digit k = CHR ''3'' \<longleftrightarrow> k = 3"
    "digit k = CHR ''4'' \<longleftrightarrow> k = 4" "digit k = CHR ''5'' \<longleftrightarrow> k = 5"
    "digit k = CHR ''6'' \<longleftrightarrow> k = 6" "digit k = CHR ''7'' \<longleftrightarrow> k = 7"
    "digit k = CHR ''8'' \<longleftrightarrow> k = 8" "digit k = CHR ''9'' \<longleftrightarrow> k = 9"
    "digit k \<noteq> CHR ''.''"
  using lt10 [OF assms] by (auto simp: digit_def)

lemma of_char_digit: "k < 10 \<Longrightarrow> (of_char (digit k) :: nat) = 48 + k"
  using lt10 [of k] by (auto simp: digit_def)

lemma in_class_digit:
  "k < 10 \<Longrightarrow> in_class CHR ''6'' CHR ''9'' (digit k) \<longleftrightarrow> 6 \<le> k"
  "k < 10 \<Longrightarrow> in_class CHR ''0'' CHR ''9'' (digit k) \<longleftrightarrow> True"
  "k < 10 \<Longrightarrow> in_class CHR ''0'' CHR ''1'' (digit k) \<longleftrightarrow> k \<le> 1"
  by (auto simp: in_class_def of_char_digit)

lemma digit_neq_dot: "k < 10 \<Longrightarrow> CHR ''.'' \<noteq> digit k"
  using digit_iff(11) [of k] by auto

lemma show_octet_cases [consumes 1, case_names one two three]:
  assumes "n < 256"
  obtains
    (one) "n < 10" "show_octet n = [digit n]"
  | (two) t u where "1 \<le> t" "t < 10" "u < 10" "n = 10 * t + u" "show_octet n = [digit t, digit u]"
  | (three) h t u where "1 \<le> h" "h < 3" "t < 10" "u < 10" "n = 100 * h + 10 * t + u"
      "show_octet n = [digit h, digit t, digit u]"
proof -
  consider "n < 10" | "10 \<le> n" "n < 100" | "100 \<le> n" by linarith
  then show thesis
  proof cases
    case 1
    then show thesis using one by (simp add: show_octet_def)
  next
    case 2
    have "1 \<le> n div 10" "n div 10 < 10" "n mod 10 < 10" "n = 10 * (n div 10) + n mod 10"
      using 2 by simp_all
    moreover have "show_octet n = [digit (n div 10), digit (n mod 10)]"
      using 2 by (simp add: show_octet_def)
    ultimately show thesis using two by blast
  next
    case 3
    have "n div 10 div 10 = n div 100"
      by (simp add: div_mult2_eq [symmetric])
    then have "n div 10 = 10 * (n div 100) + n div 10 mod 10"
      using div_mult_mod_eq [of "n div 10" 10] by simp
    then have "10 * (n div 10) = 100 * (n div 100) + 10 * (n div 10 mod 10)"
      by simp
    then have "n = 100 * (n div 100) + 10 * (n div 10 mod 10) + n mod 10"
      using div_mult_mod_eq [of n 10] by (simp add: mult.commute)
    moreover have "1 \<le> n div 100" "n div 100 < 3" "n div 10 mod 10 < 10" "n mod 10 < 10"
      using 3 assms by simp_all
    moreover have "show_octet n = [digit (n div 100), digit (n div 10 mod 10), digit (n mod 10)]"
      using 3 by (simp add: show_octet_def)
    ultimately show thesis using three by blast
  qed
qed

lemma show_octet_no_dot: "n < 256 \<Longrightarrow> CHR ''.'' \<notin> set (show_octet n)"
  by (cases n rule: show_octet_cases) (auto simp: digit_neq_dot)

lemma digit_inj: "k < 10 \<Longrightarrow> j < 10 \<Longrightarrow> digit k = digit j \<longleftrightarrow> k = j"
  using lt10 [of k] lt10 [of j] by (auto simp: digit_def)

lemma show_octet_inj:
  assumes "n < 256" "m < 256"
  shows "show_octet n = show_octet m \<longleftrightarrow> n = m"
  using assms(1)
proof (cases n rule: show_octet_cases)
  case one
  show ?thesis using assms(2)
    by (cases m rule: show_octet_cases) (use one in \<open>auto simp: digit_inj\<close>)
next
  case (two t u)
  show ?thesis using assms(2)
    by (cases m rule: show_octet_cases) (use two in \<open>auto simp: digit_inj\<close>)
next
  case (three h t u)
  show ?thesis using assms(2)
    by (cases m rule: show_octet_cases) (use three in \<open>auto simp: digit_inj\<close>)
qed

lemma show_octet_literals:
  "show_octet 10 = ''10''" "show_octet 172 = ''172''" "show_octet 192 = ''192''"
  "show_octet 168 = ''168''" "show_octet 127 = ''127''" "show_octet 169 = ''169''"
  "show_octet 254 = ''254''"
  by (simp_all add: show_octet_def digit_def)

lemma show_octet_nonempty: "show_octet c \<noteq> []"
  by (simp add: show_octet_def)


lemma octet_16_31_dot_show:
  assumes "b < 256"
  shows "octet_16_31_dot (show_octet b @ CHR ''.'' # show_octet c @ r) \<longleftrightarrow> 16 \<le> b \<and> b \<le> 31"
  using assms
proof (cases b rule: show_octet_cases)
  case one
  obtain x xs where "show_octet c = x # xs" using show_octet_nonempty [of c] by (cases "show_octet c") auto
  then show ?thesis using one by (simp add: digit_neq_dot [symmetric] in_class_def)
next
  case (two t u)
  then show ?thesis by (auto simp: digit_iff in_class_digit)
next
  case (three h t u)
  then show ?thesis by (simp add: digit_iff)
qed


lemma radix_eq:
  fixes a b n m q :: nat
  assumes "b < q" "m < q"
  shows "a * q + b = n * q + m \<longleftrightarrow> a = n \<and> b = m"
proof
  assume eq: "a * q + b = n * q + m"
  have "(a * q + b) div q = a" "(n * q + m) div q = n"
    using assms by simp_all
  then have "a = n" using eq by simp
  then show "a = n \<and> b = m" using eq by simp
qed simp

lemma addr32_div_16777216:
  assumes "wf_ipv4 a"
  shows "addr32 a div 16777216 = o1 a"
proof -
  have "addr32 a = o1 a * 16777216 + ((o2 a * 256 + o3 a) * 256 + o4 a)"
    by (simp add: addr32_def)
  moreover have "(o2 a * 256 + o3 a) * 256 + o4 a < 16777216"
    using assms by (simp add: wf_ipv4_def)
  ultimately show ?thesis by simp
qed

lemma addr32_div_65536:
  assumes "wf_ipv4 a"
  shows "addr32 a div 65536 = o1 a * 256 + o2 a"
proof -
  have "addr32 a = (o1 a * 256 + o2 a) * 65536 + (o3 a * 256 + o4 a)"
    by (simp add: addr32_def)
  moreover have "o3 a * 256 + o4 a < 65536"
    using assms by (simp add: wf_ipv4_def)
  ultimately show ?thesis by simp
qed

lemma addr32_div_1048576:
  assumes "wf_ipv4 a"
  shows "addr32 a div 1048576 = o1 a * 16 + o2 a div 16"
proof -
  have "addr32 a div 1048576 = addr32 a div 65536 div 16"
    by (simp add: div_mult2_eq [symmetric])
  also have "\<dots> = (o1 a * 16 * 16 + o2 a) div 16"
    by (simp add: addr32_div_65536 [OF assms])
  also have "\<dots> = o1 a * 16 + o2 a div 16"
    by (simp only: div_mult_self3)
  finally show ?thesis .
qed

lemma wf_ip: "wf_ipv4 (ip a b c d) \<longleftrightarrow> a < 256 \<and> b < 256 \<and> c < 256 \<and> d < 256"
  by (simp add: wf_ipv4_def ip_def)

lemma in_cidr_8:
  assumes "wf_ipv4 a" "n < 256"
  shows "in_cidr a (ip n 0 0 0) 8 \<longleftrightarrow> o1 a = n"
proof -
  have "wf_ipv4 (ip n 0 0 0)" using assms by (simp add: wf_ip)
  then have "addr32 (ip n 0 0 0) div 16777216 = n"
    by (simp add: addr32_div_16777216 ip_def)
  then show ?thesis
    by (simp add: in_cidr_def addr32_div_16777216 [OF assms(1)])
qed

lemma in_cidr_16:
  assumes "wf_ipv4 a" "n < 256" "m < 256"
  shows "in_cidr a (ip n m 0 0) 16 \<longleftrightarrow> o1 a = n \<and> o2 a = m"
proof -
  have "wf_ipv4 (ip n m 0 0)" using assms by (simp add: wf_ip)
  then have "addr32 (ip n m 0 0) div 65536 = n * 256 + m"
    by (simp add: addr32_div_65536 ip_def)
  moreover have "o2 a < 256" using assms by (simp add: wf_ipv4_def)
  ultimately show ?thesis
    using radix_eq [of "o2 a" 256 m "o1 a" n] assms
    by (simp add: in_cidr_def addr32_div_65536 [OF assms(1)])
qed


lemma div16_eq_1: "(b::nat) div 16 = Suc 0 \<longleftrightarrow> 16 \<le> b \<and> b \<le> 31"
proof -
  have "b div 16 = Suc 0 \<longleftrightarrow> 1 \<le> b div 16 \<and> b div 16 < 2" by linarith
  also have "\<dots> \<longleftrightarrow> 1 * 16 \<le> b \<and> b < 2 * 16"
    by (simp only: less_eq_div_iff_mult_less_eq div_less_iff_less_mult) 
  finally show ?thesis by auto
qed

lemma in_cidr_172:
  assumes "wf_ipv4 a"
  shows "in_cidr a (ip 172 16 0 0) 12 \<longleftrightarrow> o1 a = 172 \<and> 16 \<le> o2 a \<and> o2 a \<le> 31"
proof -
  have "wf_ipv4 (ip 172 16 0 0)" by (simp add: wf_ip)
  then have "addr32 (ip 172 16 0 0) div 1048576 = 172 * 16 + 1"
    by (simp add: addr32_div_1048576 ip_def)
  moreover have "o2 a div 16 < 16" using assms by (simp add: wf_ipv4_def div_less_iff_less_mult)
  ultimately show ?thesis
    using radix_eq [of "o2 a div 16" 16 1 "o1 a" 172]
    by (simp add: in_cidr_def addr32_div_1048576 [OF assms] div16_eq_1)
qed

lemma in_private_range_octets:
  assumes "wf_ipv4 a"
  shows "in_private_range a \<longleftrightarrow>
    o1 a = 10 \<or> (o1 a = 172 \<and> 16 \<le> o2 a \<and> o2 a \<le> 31) \<or> (o1 a = 192 \<and> o2 a = 168)
    \<or> o1 a = 127 \<or> (o1 a = 169 \<and> o2 a = 254)"
  by (simp add: in_private_range_def in_cidr_8 [OF assms] in_cidr_16 [OF assms] in_cidr_172 [OF assms])



lemma prefix_upto_dot:
  "CHR ''.'' \<notin> set ds \<Longrightarrow> CHR ''.'' \<notin> set xs \<Longrightarrow>
   prefix (ds @ CHR ''.'' # p) (xs @ CHR ''.'' # r) \<longleftrightarrow> ds = xs \<and> prefix p r"
proof (induction ds arbitrary: xs)
  case Nil
  then show ?case by (cases xs) auto
next
  case (Cons d ds)
  then show ?case by (cases xs) auto
qed

lemma prefix_octet:
  assumes "n < 256" "m < 256"
  shows "prefix (show_octet m @ CHR ''.'' # p) (show_octet n @ CHR ''.'' # r) \<longleftrightarrow> n = m \<and> prefix p r"
  using prefix_upto_dot [OF show_octet_no_dot [OF assms(2)] show_octet_no_dot [OF assms(1)], of p r]
    show_octet_inj [OF assms(2) assms(1)] by auto

lemma dotted_split:
  "dotted a = show_octet (o1 a) @ CHR ''.'' # show_octet (o2 a) @ CHR ''.'' # show_octet (o3 a) @ CHR ''.'' # show_octet (o4 a)"
  by (simp add: dotted_def)

lemma prefix_one_octet:
  assumes "wf_ipv4 a" "m < 256"
  shows "prefix (show_octet m @ ''.'') (dotted a) \<longleftrightarrow> o1 a = m"
proof -
  have "o1 a < 256" using assms by (simp add: wf_ipv4_def)
  then show ?thesis using prefix_octet [OF _ assms(2), of "o1 a" "[]"]
    by (simp add: dotted_split)
qed

lemma prefix_two_octets:
  assumes "wf_ipv4 a" "m < 256" "m' < 256"
  shows "prefix (show_octet m @ ''.'' @ show_octet m' @ ''.'') (dotted a) \<longleftrightarrow> o1 a = m \<and> o2 a = m'"
proof -
  have "o1 a < 256" "o2 a < 256" using assms by (simp_all add: wf_ipv4_def)
  then show ?thesis
    using prefix_octet [OF _ assms(2), of "o1 a"] prefix_octet [OF _ assms(3), of "o2 a" "[]"]
    by (simp add: dotted_split)
qed

lemma drop_172:
  assumes "o1 a = 172"
  shows "drop 4 (dotted a) = show_octet (o2 a) @ CHR ''.'' # show_octet (o3 a) @ CHR ''.'' # show_octet (o4 a)"
  using assms by (simp add: dotted_split show_octet_literals)

theorem PRIVATE_test_dotted:
  assumes "wf_ipv4 a"
  shows "PRIVATE_test (dotted a) \<longleftrightarrow> in_private_range a"
proof -
  have p10: "prefix ''10.'' (dotted a) \<longleftrightarrow> o1 a = 10"
    using prefix_one_octet [OF assms, of 10] by (simp add: show_octet_literals)
  have p127: "prefix ''127.'' (dotted a) \<longleftrightarrow> o1 a = 127"
    using prefix_one_octet [OF assms, of 127] by (simp add: show_octet_literals)
  have p172: "prefix ''172.'' (dotted a) \<longleftrightarrow> o1 a = 172"
    using prefix_one_octet [OF assms, of 172] by (simp add: show_octet_literals)
  have p192: "prefix ''192.168.'' (dotted a) \<longleftrightarrow> o1 a = 192 \<and> o2 a = 168"
    using prefix_two_octets [OF assms, of 192 168] by (simp add: show_octet_literals)
  have p169: "prefix ''169.254.'' (dotted a) \<longleftrightarrow> o1 a = 169 \<and> o2 a = 254"
    using prefix_two_octets [OF assms, of 169 254] by (simp add: show_octet_literals)
  have o2: "o2 a < 256" using assms by (simp add: wf_ipv4_def)
  have alt: "o1 a = 172 \<Longrightarrow> octet_16_31_dot (drop 4 (dotted a)) \<longleftrightarrow> 16 \<le> o2 a \<and> o2 a \<le> 31"
    using octet_16_31_dot_show [OF o2] by (simp only: drop_172)
  show ?thesis
    unfolding PRIVATE_test_def p10 p127 p172 p192 p169 in_private_range_octets [OF assms]
    using alt by blast
qed

section \<open>The paths of a call\<close>

lemma msgs_distinct:
  "msg_https_only \<noteq> msg_private_first" "msg_https_only \<noteq> msg_timeout"
  "msg_https_only \<noteq> msg_private_post" "msg_private_first \<noteq> msg_timeout"
  "msg_private_first \<noteq> msg_private_post" "msg_timeout \<noteq> msg_private_post"
  "msg_private_first \<noteq> msg_https_only" "msg_timeout \<noteq> msg_https_only"
  "msg_private_post \<noteq> msg_https_only" "msg_timeout \<noteq> msg_private_first"
  "msg_private_post \<noteq> msg_private_first" "msg_private_post \<noteq> msg_timeout"
  by (simp_all add: msg_https_only_def msg_private_first_def msg_timeout_def msg_private_post_def)

lemma socket_first_le: "socket_first e d t \<Longrightarrow> t \<le> d"
  by (auto simp: socket_first_def)

text \<open>The late listener clears the timer and destroys the socket, nothing else.\<close>

lemma late_listener_ops: "a \<in> set (late_listener e target) \<Longrightarrow> a = ClearTimeout \<or> a = SocketDestroy"
  by (auto simp: late_listener_def split: option.splits)

lemma late_listener_no_fetch [simp]: "Fetch x \<notin> set (late_listener e target)"
  using late_listener_ops by blast

lemma late_listener_no_connect [simp]: "SocketConnect p a \<notin> set (late_listener e target)"
  using late_listener_ops by blast

text \<open>The four ways the handshake settles.\<close>

lemma handshake_cases [case_names timeout sock_error rebound verified]:
  obtains
    (timeout) "handshake e target =
       (Inl (Error msg_timeout),
        [SocketNew, SetTimeout 3000, SocketOnceError, SocketConnect 443 target, SocketDestroy],
        [])"
      "\<forall>t r. socket_connect e 443 target = ConnectAt t r \<longrightarrow> \<not> socket_first e 3000 t"
      "\<forall>t err. socket_connect e 443 target = ErrorAt t err \<longrightarrow> \<not> socket_first e 3000 t"
  | (sock_error) t err where "socket_connect e 443 target = ErrorAt t err" "socket_first e 3000 t"
      "handshake e target =
       (Inl (SocketFault err),
        [SocketNew, SetTimeout 3000, SocketOnceError, SocketConnect 443 target, ClearTimeout,
         SocketDestroy],
        [])"
  | (rebound) t remote where "socket_connect e 443 target = ConnectAt t remote"
      "socket_first e 3000 t" "PRIVATE_test (to_string remote)"
      "handshake e target =
       (Inl (Error msg_private_post),
        [SocketNew, SetTimeout 3000, SocketOnceError, SocketConnect 443 target, ClearTimeout,
         SocketDestroy],
        [])"
  | (verified) t remote where "socket_connect e 443 target = ConnectAt t remote"
      "socket_first e 3000 t" "\<not> PRIVATE_test (to_string remote)"
      "handshake e target =
       (Inr (),
        [SocketNew, SetTimeout 3000, SocketOnceError, SocketConnect 443 target, ClearTimeout,
         SocketEnd],
        late_listener e target)"
proof (cases "socket_connect e 443 target")
  case (ConnectAt t remote)
  then show ?thesis
    using timeout rebound verified
    by (cases "socket_first e 3000 t"; cases "PRIVATE_test (to_string remote)")
       (simp_all add: handshake_def)
next
  case (ErrorAt t err)
  then show ?thesis
    using timeout sock_error by (cases "socket_first e 3000 t") (simp_all add: handshake_def)
next
  case Silent
  then show ?thesis using timeout by (simp add: handshake_def)
qed

text \<open>Past the URL gate and the first classification, the call is the handshake followed
  by the fetch.\<close>

lemma safeFetch_gate_passed:
  assumes "parse_url e raw = Some u" "protocol u = ''https:''"
    "resolve4 e (hostname u) = Inr ips" "\<not> list_ex PRIVATE_test ips"
  shows "safeFetch e raw =
    (case handshake e (first_ip ips) of
       (Inl f, tr, later) \<Rightarrow> (Inl f, DnsResolve4 (hostname u) # tr @ later)
     | (Inr _, tr, later) \<Rightarrow>
         (case fst (native_fetch e raw) of
            Inl err \<Rightarrow>
              (Inl (FetchFault err), DnsResolve4 (hostname u) # tr @ [Fetch raw] @ later)
          | Inr resp \<Rightarrow> (Inr resp, DnsResolve4 (hostname u) # tr @ [Fetch raw] @ later)))"
  using assms by (simp add: safeFetch_def)


text \<open>Every run of \<open>safeFetch\<close> takes one of nine paths.\<close>

lemma safeFetch_cases
  [case_names invalid scheme dns private_first timed_out socket_failed rebinding fetch_failed fetched]:
  obtains
    (invalid) "parse_url e raw = None" "safeFetch e raw = (Inl UrlTypeError, [])"
  | (scheme) u where "parse_url e raw = Some u" "protocol u \<noteq> ''https:''"
      "safeFetch e raw = (Inl (Error msg_https_only), [])"
  | (dns) u err where "parse_url e raw = Some u" "protocol u = ''https:''"
      "resolve4 e (hostname u) = Inl err"
      "safeFetch e raw = (Inl (DnsFault err), [DnsResolve4 (hostname u)])"
  | (private_first) u ips where "parse_url e raw = Some u" "protocol u = ''https:''"
      "resolve4 e (hostname u) = Inr ips" "list_ex PRIVATE_test ips"
      "safeFetch e raw = (Inl (Error msg_private_first), [DnsResolve4 (hostname u)])"
  | (timed_out) u ips where "parse_url e raw = Some u" "protocol u = ''https:''"
      "resolve4 e (hostname u) = Inr ips" "\<not> list_ex PRIVATE_test ips"
      "\<forall>t r. socket_connect e 443 (first_ip ips) = ConnectAt t r \<longrightarrow> \<not> socket_first e 3000 t"
      "\<forall>t err. socket_connect e 443 (first_ip ips) = ErrorAt t err \<longrightarrow> \<not> socket_first e 3000 t"
      "safeFetch e raw =
       (Inl (Error msg_timeout),
        [DnsResolve4 (hostname u), SocketNew, SetTimeout 3000, SocketOnceError,
         SocketConnect 443 (first_ip ips), SocketDestroy])"
  | (socket_failed) u ips t err where "parse_url e raw = Some u" "protocol u = ''https:''"
      "resolve4 e (hostname u) = Inr ips" "\<not> list_ex PRIVATE_test ips"
      "socket_connect e 443 (first_ip ips) = ErrorAt t err" "socket_first e 3000 t"
      "safeFetch e raw =
       (Inl (SocketFault err),
        [DnsResolve4 (hostname u), SocketNew, SetTimeout 3000, SocketOnceError,
         SocketConnect 443 (first_ip ips), ClearTimeout, SocketDestroy])"
  | (rebinding) u ips t remote where "parse_url e raw = Some u" "protocol u = ''https:''"
      "resolve4 e (hostname u) = Inr ips" "\<not> list_ex PRIVATE_test ips"
      "socket_connect e 443 (first_ip ips) = ConnectAt t remote" "socket_first e 3000 t"
      "PRIVATE_test (to_string remote)"
      "safeFetch e raw =
       (Inl (Error msg_private_post),
        [DnsResolve4 (hostname u), SocketNew, SetTimeout 3000, SocketOnceError,
         SocketConnect 443 (first_ip ips), ClearTimeout, SocketDestroy])"
  | (fetch_failed) u ips t remote err where "parse_url e raw = Some u" "protocol u = ''https:''"
      "resolve4 e (hostname u) = Inr ips" "\<not> list_ex PRIVATE_test ips"
      "socket_connect e 443 (first_ip ips) = ConnectAt t remote" "socket_first e 3000 t"
      "\<not> PRIVATE_test (to_string remote)" "fst (native_fetch e raw) = Inl err"
      "safeFetch e raw =
       (Inl (FetchFault err),
        [DnsResolve4 (hostname u), SocketNew, SetTimeout 3000, SocketOnceError,
         SocketConnect 443 (first_ip ips), ClearTimeout, SocketEnd, Fetch raw]
        @ late_listener e (first_ip ips))"
  | (fetched) u ips t remote resp where "parse_url e raw = Some u" "protocol u = ''https:''"
      "resolve4 e (hostname u) = Inr ips" "\<not> list_ex PRIVATE_test ips"
      "socket_connect e 443 (first_ip ips) = ConnectAt t remote" "socket_first e 3000 t"
      "\<not> PRIVATE_test (to_string remote)" "fst (native_fetch e raw) = Inr resp"
      "safeFetch e raw =
       (Inr resp,
        [DnsResolve4 (hostname u), SocketNew, SetTimeout 3000, SocketOnceError,
         SocketConnect 443 (first_ip ips), ClearTimeout, SocketEnd, Fetch raw]
        @ late_listener e (first_ip ips))"
proof (cases "parse_url e raw")
  case None
  then show ?thesis using invalid by (simp add: safeFetch_def)
next
  case (Some u)
  note parsed = this
  show ?thesis
  proof (cases "protocol u = ''https:''")
    case False
    then show ?thesis using scheme parsed by (simp add: safeFetch_def)
  next
    case True
    note https = this
    show ?thesis
    proof (cases "resolve4 e (hostname u)")
      case (Inl err)
      then show ?thesis using dns parsed https by (simp add: safeFetch_def)
    next
      case (Inr ips)
      note resolved = this
      show ?thesis
      proof (cases "list_ex PRIVATE_test ips")
        case True
        then show ?thesis using private_first parsed https resolved by (simp add: safeFetch_def)
      next
        case False
        note gate = safeFetch_gate_passed [OF parsed https resolved False]
        show ?thesis
        proof (cases rule: handshake_cases [where e = e and target = "first_ip ips"])
          case timeout
          then show ?thesis
            using timed_out [OF parsed https resolved False] gate by simp
        next
          case (sock_error t err)
          then show ?thesis
            using socket_failed [OF parsed https resolved False] gate by simp
        next
          case (rebound t remote)
          then show ?thesis
            using rebinding [OF parsed https resolved False] gate by simp
        next
          case (verified t remote)
          show ?thesis
          proof (cases "fst (native_fetch e raw)")
            case (Inl err)
            then show ?thesis
              using fetch_failed [OF parsed https resolved False verified(1-3)] verified(4) gate
              by simp
          next
            case (Inr resp)
            then show ?thesis
              using fetched [OF parsed https resolved False verified(1-3)] verified(4) gate
              by simp
          qed
        qed
      qed
    qed
  qed
qed

text \<open>A rejection of \<open>dns.resolve4\<close> is the rejection of the call, and the first
  address of a non-empty answer without private address is the one dialed.\<close>

lemma native_fetch_parsed:
  assumes "parse_url e raw = Some u"
  shows "native_fetch e raw =
    (case fetch_resolve e (hostname u) of
       Inl err \<Rightarrow> (Inl err, [FetchResolve (hostname u)])
     | Inr addr \<Rightarrow>
         (fetch_from e addr (effective_port u) raw,
          [FetchResolve (hostname u), FetchConnect (effective_port u) addr]))"
  using assms by (simp add: native_fetch_def)

lemma resolution_failure_rejects:
  assumes "parse_url e raw = Some u" "protocol u = ''https:''"
    "resolve4 e (hostname u) = Inl err"
  shows "safeFetch e raw = (Inl (DnsFault err), [DnsResolve4 (hostname u)])"
  using assms by (simp add: safeFetch_def)

lemma nonempty_answer_dials_first:
  assumes "parse_url e raw = Some u" "protocol u = ''https:''"
    "resolve4 e (hostname u) = Inr (a # ips)" "\<not> list_ex PRIVATE_test (a # ips)"
  shows "SocketConnect 443 (Some a) \<in> set (snd (safeFetch e raw))"
  using assms
  by (cases rule: safeFetch_cases [where e = e and raw = raw]) (auto simp: first_ip_def)

section \<open>The properties\<close>

lemmas run_simps = run_env_def parse_example_def safeFetch_def handshake_def socket_first_def
  first_ip_def PRIVATE_test_def to_string_def late_listener_def native_fetch_def
  effective_port_def

text \<open>C1. The final fetch is performed only when the handshake to the selected address
  completed within 3000 ms and the peer address read after it is not classified as
  private; when either fails, the call ends with an error raised before the fetch step
  and no fetch is performed.\<close>

theorem fetch_only_after_verified_handshake:
  "((\<exists>x. Fetch x \<in> set (snd (safeFetch e raw))) \<longrightarrow> handshake_verified e raw)
   \<and> (\<not> handshake_verified e raw \<longrightarrow>
        (\<exists>f. fst (safeFetch e raw) = Inl f \<and> (\<forall>err. f \<noteq> FetchFault err))
        \<and> (\<forall>x. Fetch x \<notin> set (snd (safeFetch e raw))))"
proof (cases rule: safeFetch_cases [where e = e and raw = raw])
  case (fetch_failed u ips t remote err)
  then show ?thesis by (simp add: handshake_verified_def socket_first_le)
next
  case (fetched u ips t remote resp)
  then show ?thesis by (simp add: handshake_verified_def socket_first_le)
qed simp_all

theorem fetch_only_after_verified_handshake_witness:
  "(\<exists>x. Fetch x \<in> set (snd (safeFetch (run_env [''93.184.216.34''] (ConnectAt 40 (Some ''93.184.216.34'')))
        ''https://example.com/a.png'')))
   \<and> handshake_verified (run_env [''93.184.216.34''] (ConnectAt 40 (Some ''93.184.216.34'')))
        ''https://example.com/a.png''
   \<and> \<not> handshake_verified (run_env [''93.184.216.34''] (ConnectAt 3001 (Some ''93.184.216.34'')))
        ''https://example.com/a.png''
   \<and> fst (safeFetch (run_env [''93.184.216.34''] (ConnectAt 3001 (Some ''93.184.216.34'')))
        ''https://example.com/a.png'') = Inl (Error msg_timeout)"
proof -
  let ?ok = "run_env [''93.184.216.34''] (ConnectAt 40 (Some ''93.184.216.34''))"
  let ?slow = "run_env [''93.184.216.34''] (ConnectAt 3001 (Some ''93.184.216.34''))"
  let ?raw = "''https://example.com/a.png''"
  have f: "\<exists>x. Fetch x \<in> set (snd (safeFetch ?ok ?raw))"
    by (simp add: run_simps)
  have v: "handshake_verified ?ok ?raw"
    using f fetch_only_after_verified_handshake [of ?ok ?raw] by blast
  have n: "\<not> handshake_verified ?slow ?raw"
    by (simp add: handshake_verified_def run_env_def parse_example_def first_ip_def)
  have "\<exists>f. fst (safeFetch ?slow ?raw) = Inl f"
    using n fetch_only_after_verified_handshake [of ?slow ?raw] by blast
  moreover have "fst (safeFetch ?slow ?raw) = Inl (Error msg_timeout)"
    by (simp add: run_simps)
  ultimately show ?thesis using f v n by blast
qed

text \<open>C2. When the connect callback runs, the address classified is
  \<open>socket.remoteAddress\<close>, the peer the transport reports, whatever address was dialed. If
  it is classified as private the socket is destroyed and the call is rejected with the
  post-handshake error: so it is in every run whose resolution held no private address
  and whose connection reached a private one.\<close>

theorem post_handshake_check:
  assumes "parse_url e raw = Some u" "protocol u = ''https:''"
    "resolve4 e (hostname u) = Inr ips" "\<forall>a\<in>set ips. \<not> PRIVATE_test a"
    "socket_connect e 443 (first_ip ips) = ConnectAt t remote" "socket_first e 3000 t"
    "PRIVATE_test (to_string remote)"
  shows "safeFetch e raw =
    (Inl (Error msg_private_post),
     [DnsResolve4 (hostname u), SocketNew, SetTimeout 3000, SocketOnceError,
      SocketConnect 443 (first_ip ips), ClearTimeout, SocketDestroy])"
  using assms
  by (cases rule: safeFetch_cases [where e = e and raw = raw]) (auto simp: list_ex_iff)

theorem post_handshake_check_witness:
  "\<not> PRIVATE_test ''93.184.216.34''
   \<and> PRIVATE_test (to_string (Some ''127.0.0.1''))
   \<and> safeFetch (run_env [''93.184.216.34''] (ConnectAt 20 (Some ''127.0.0.1'')))
        ''https://example.com/a.png'' =
      (Inl (Error msg_private_post),
       [DnsResolve4 ''example.com'', SocketNew, SetTimeout 3000, SocketOnceError,
        SocketConnect 443 (Some ''93.184.216.34''), ClearTimeout, SocketDestroy])"
proof -
  let ?e = "run_env [''93.184.216.34''] (ConnectAt 20 (Some ''127.0.0.1''))"
  have a: "parse_url ?e ''https://example.com/a.png''
      = Some \<lparr>protocol = ''https:'', hostname = ''example.com'', port = None\<rparr>"
    by (simp add: run_env_def parse_example_def)
  have b: "resolve4 ?e ''example.com'' = Inr [''93.184.216.34'']"
    by (simp add: run_env_def)
  have c: "\<forall>a\<in>set [''93.184.216.34'']. \<not> PRIVATE_test a"
    by (simp add: PRIVATE_test_def)
  have d: "socket_connect ?e 443 (first_ip [''93.184.216.34'']) = ConnectAt 20 (Some ''127.0.0.1'')"
    by (simp add: run_env_def)
  have f: "socket_first ?e 3000 20" by (simp add: socket_first_def)
  have g: "PRIVATE_test (to_string (Some ''127.0.0.1''))"
    by (simp add: PRIVATE_test_def to_string_def)
  show ?thesis
    using post_handshake_check [OF a _ _ c d f g] b c g by (simp add: first_ip_def)
qed

text \<open>C3. If the answer of the resolver holds, at any position, an address of
  \<open>10.0.0.0/8\<close>, \<open>172.16.0.0/12\<close>, \<open>192.168.0.0/16\<close>, \<open>127.0.0.0/8\<close> or
  \<open>169.254.0.0/16\<close>, the call is rejected with the first-pass error and no connection is
  attempted, also when the first address of the answer is public.\<close>

theorem first_pass_rejects_any_private:
  assumes "parse_url e raw = Some u" "protocol u = ''https:''"
    "resolve4 e (hostname u) = Inr ips"
    "wf_ipv4 a" "in_private_range a" "dotted a \<in> set ips"
  shows "safeFetch e raw = (Inl (Error msg_private_first), [DnsResolve4 (hostname u)])
    \<and> (\<forall>p target. SocketConnect p target \<notin> set (snd (safeFetch e raw)))"
proof -
  have "PRIVATE_test (dotted a)"
    using assms(4,5) by (simp add: PRIVATE_test_dotted)
  then have "list_ex PRIVATE_test ips"
    using assms(6) by (auto simp: list_ex_iff)
  then show ?thesis
    using assms(1-3) by (simp add: safeFetch_def)
qed

theorem first_pass_rejects_any_private_witness:
  "wf_ipv4 (ip 169 254 169 254) \<and> in_private_range (ip 169 254 169 254)
   \<and> dotted (ip 169 254 169 254) \<in> set [''93.184.216.34'', ''169.254.169.254'']
   \<and> safeFetch (run_env [''93.184.216.34'', ''169.254.169.254''] (ConnectAt 20 (Some ''93.184.216.34'')))
        ''https://example.com/a.png'' =
      (Inl (Error msg_private_first), [DnsResolve4 ''example.com''])"
proof -
  let ?e = "run_env [''93.184.216.34'', ''169.254.169.254''] (ConnectAt 20 (Some ''93.184.216.34''))"
  have a: "parse_url ?e ''https://example.com/a.png''
      = Some \<lparr>protocol = ''https:'', hostname = ''example.com'', port = None\<rparr>"
    by (simp add: run_env_def parse_example_def)
  have b: "resolve4 ?e ''example.com'' = Inr [''93.184.216.34'', ''169.254.169.254'']"
    by (simp add: run_env_def)
  have w: "wf_ipv4 (ip 169 254 169 254)" by (simp add: wf_ipv4_def ip_def)
  have r: "in_private_range (ip 169 254 169 254)"
    by (simp add: in_private_range_def in_cidr_def addr32_def ip_def)
  have d: "dotted (ip 169 254 169 254) \<in> set [''93.184.216.34'', ''169.254.169.254'']"
    by (simp add: dotted_def show_octet_def digit_def ip_def)
  show ?thesis
    using first_pass_rejects_any_private [OF a _ _ w r d] b w r d by simp
qed

text \<open>C4. The retrieval is \<open>fetch(raw)\<close>, on the original URL string, after the socket
  of the handshake has been ended. The fetch resolves the hostname of that string again,
  the same name the first lookup resolved, and the content comes from the address of this
  second resolution: the outcome of the call is a function of its answer, and neither the
  address dialed nor the peer address verified enters it.\<close>

theorem fetch_targets_original_url:
  assumes "Fetch x \<in> set (snd (safeFetch e raw))"
  shows "x = raw
    \<and> (\<exists>u ips t remote.
          parse_url e raw = Some u \<and> resolve4 e (hostname u) = Inr ips
          \<and> socket_connect e 443 (first_ip ips) = ConnectAt t remote
          \<and> snd (safeFetch e raw) =
              [DnsResolve4 (hostname u), SocketNew, SetTimeout 3000, SocketOnceError,
               SocketConnect 443 (first_ip ips), ClearTimeout, SocketEnd, Fetch raw]
              @ late_listener e (first_ip ips)
          \<and> snd (native_fetch e raw) =
              FetchResolve (hostname u)
              # (case fetch_resolve e (hostname u) of
                   Inl err \<Rightarrow> []
                 | Inr addr \<Rightarrow> [FetchConnect (effective_port u) addr])
          \<and> fst (safeFetch e raw) =
              (case fetch_resolve e (hostname u) of
                 Inl err \<Rightarrow> Inl (FetchFault err)
               | Inr addr \<Rightarrow>
                   (case fetch_from e addr (effective_port u) raw of
                      Inl err \<Rightarrow> Inl (FetchFault err)
                    | Inr resp \<Rightarrow> Inr resp)))"
  using assms
proof (cases rule: safeFetch_cases [where e = e and raw = raw])
  case (fetch_failed u ips t remote err)
  then show ?thesis
    using assms native_fetch_parsed [OF fetch_failed(1)]
    by (auto split: sum.splits)
next
  case (fetched u ips t remote resp)
  then show ?thesis
    using assms native_fetch_parsed [OF fetched(1)]
    by (auto split: sum.splits)
qed simp_all

theorem fetch_targets_original_url_witness:
  "Fetch ''https://example.com/a.png''
     \<in> set (snd (safeFetch rebound_env ''https://example.com/a.png''))
   \<and> safeFetch rebound_env ''https://example.com/a.png'' =
       (Inr metadata,
        [DnsResolve4 ''example.com'', SocketNew, SetTimeout 3000, SocketOnceError,
         SocketConnect 443 (Some ''93.184.216.34''), ClearTimeout, SocketEnd,
         Fetch ''https://example.com/a.png'', ClearTimeout, SocketDestroy])
   \<and> snd (native_fetch rebound_env ''https://example.com/a.png'') =
       [FetchResolve ''example.com'', FetchConnect 443 ''169.254.169.254'']"
proof -
  let ?raw = "''https://example.com/a.png''"
  have f: "Fetch ?raw \<in> set (snd (safeFetch rebound_env ?raw))"
    by (simp add: rebound_env_def run_simps)
  have p: "parse_url rebound_env ?raw
      = Some \<lparr>protocol = ''https:'', hostname = ''example.com'', port = None\<rparr>"
    by (simp add: rebound_env_def parse_example_def)
  have r: "resolve4 rebound_env ''example.com'' = Inr [''93.184.216.34'']"
    "fetch_resolve rebound_env ''example.com'' = Inr ''169.254.169.254''"
    "fetch_from rebound_env ''169.254.169.254'' 443 ?raw = Inr metadata"
    "late_listener rebound_env (Some ''93.184.216.34'') = [ClearTimeout, SocketDestroy]"
    by (simp_all add: rebound_env_def late_listener_def)
  show ?thesis
    using f fetch_targets_original_url [OF f] p r
    by (auto simp: first_ip_def effective_port_def intro: prod_eqI)
qed

text \<open>C5. A URL whose scheme is not \<open>https:\<close> (so \<open>http:\<close> too) is rejected with the
  scheme error before any platform operation: no DNS lookup, no socket. An \<open>https:\<close> URL
  is never rejected with that error.\<close>

theorem scheme_gate:
  assumes "parse_url e raw = Some u"
  shows "(protocol u \<noteq> ''https:'' \<longrightarrow> safeFetch e raw = (Inl (Error msg_https_only), []))
    \<and> (protocol u = ''https:'' \<longrightarrow> fst (safeFetch e raw) \<noteq> Inl (Error msg_https_only))"
  using assms
  by (cases rule: safeFetch_cases [where e = e and raw = raw]) (simp_all add: msgs_distinct)

theorem scheme_gate_witness:
  "parse_url (run_env [''93.184.216.34''] Silent) ''http://example.com/a.png''
     = Some \<lparr>protocol = ''http:'', hostname = ''example.com'', port = None\<rparr>
   \<and> safeFetch (run_env [''93.184.216.34''] Silent) ''http://example.com/a.png''
     = (Inl (Error msg_https_only), [])"
proof -
  have p: "parse_url (run_env [''93.184.216.34''] Silent) ''http://example.com/a.png''
     = Some \<lparr>protocol = ''http:'', hostname = ''example.com'', port = None\<rparr>"
    by (simp add: run_env_def parse_example_def)
  show ?thesis using p scheme_gate [OF p] by simp
qed

text \<open>C6. If the connect attempt has not completed within 3000 ms, the timer's callback
  destroys the socket and the call is rejected with the timeout error; nothing follows the
  destruction of the socket.\<close>

theorem handshake_timeout:
  assumes "parse_url e raw = Some u" "protocol u = ''https:''"
    "resolve4 e (hostname u) = Inr ips" "\<not> list_ex PRIVATE_test ips"
    "\<not> completes_within 3000 (socket_connect e 443 (first_ip ips))"
  shows "safeFetch e raw =
    (Inl (Error msg_timeout),
     [DnsResolve4 (hostname u), SocketNew, SetTimeout 3000, SocketOnceError,
      SocketConnect 443 (first_ip ips), SocketDestroy])"
  using assms
  by (cases rule: safeFetch_cases [where e = e and raw = raw])
     (auto simp: completes_within_def dest: socket_first_le)

theorem handshake_timeout_witness:
  "\<not> completes_within 3000 Silent
   \<and> safeFetch (run_env [''93.184.216.34''] Silent) ''https://example.com/a.png'' =
      (Inl (Error msg_timeout),
       [DnsResolve4 ''example.com'', SocketNew, SetTimeout 3000, SocketOnceError,
        SocketConnect 443 (Some ''93.184.216.34''), SocketDestroy])"
proof -
  let ?e = "run_env [''93.184.216.34''] Silent"
  have a: "parse_url ?e ''https://example.com/a.png''
      = Some \<lparr>protocol = ''https:'', hostname = ''example.com'', port = None\<rparr>"
    by (simp add: run_env_def parse_example_def)
  have b: "resolve4 ?e ''example.com'' = Inr [''93.184.216.34'']"
    by (simp add: run_env_def)
  have c: "\<not> list_ex PRIVATE_test [''93.184.216.34'']"
    by (simp add: PRIVATE_test_def)
  have d: "\<not> completes_within 3000 (socket_connect ?e 443 (first_ip [''93.184.216.34'']))"
    by (simp add: run_env_def completes_within_def)
  have "\<not> completes_within 3000 Silent" by (simp add: completes_within_def)
  then show ?thesis
    using handshake_timeout [OF a _ _ c d] b by (simp add: first_ip_def)
qed




text \<open>C8. The function has no test for an empty answer. When \<open>dns.resolve4\<close> resolves
  to the empty array, \<open>ips.some\<close> is false, \<open>ips[0]\<close> is read and is \<open>undefined\<close>, and
  \<open>socket.connect(443, undefined, cb)\<close> is called; with a peer address that the regular
  expression does not match, the fetch follows.\<close>

theorem empty_answer_reaches_connect:
  "safeFetch (run_env [] (ConnectAt 1 (Some ''::1''))) ''https://example.com/a.png'' =
     (Inr png,
      [DnsResolve4 ''example.com'', SocketNew, SetTimeout 3000, SocketOnceError,
       SocketConnect 443 None, ClearTimeout, SocketEnd, Fetch ''https://example.com/a.png''])"
  by (simp add: run_simps)

text \<open>C9, as stated, fails: an answer with public addresses only, and a connection
  that reaches \<open>127.0.0.1\<close>, end in the post-handshake error.\<close>

theorem public_answer_rebound_counterexample:
  "resolve4 (run_env [''93.184.216.34''] (ConnectAt 20 (Some ''127.0.0.1''))) ''example.com''
     = Inr [dotted (ip 93 184 216 34)]
   \<and> \<not> in_private_range (ip 93 184 216 34)
   \<and> \<not> PRIVATE_test (dotted (ip 93 184 216 34))
   \<and> fst (safeFetch (run_env [''93.184.216.34''] (ConnectAt 20 (Some ''127.0.0.1'')))
        ''https://example.com/a.png'') = Inl (Error msg_private_post)"
proof -
  have d: "dotted (ip 93 184 216 34) = ''93.184.216.34''"
    by (simp add: dotted_def show_octet_def digit_def ip_def)
  have "\<not> in_private_range (ip 93 184 216 34)"
    by (simp add: in_private_range_def in_cidr_def addr32_def ip_def)
  moreover have "\<not> PRIVATE_test ''93.184.216.34''"
    by (simp add: PRIVATE_test_def)
  moreover have "fst (safeFetch (run_env [''93.184.216.34''] (ConnectAt 20 (Some ''127.0.0.1'')))
        ''https://example.com/a.png'') = Inl (Error msg_private_post)"
    by (simp add: run_simps)
  ultimately show ?thesis by (simp add: d run_env_def)
qed

text \<open>C9, amended. When the answer of the resolver holds public addresses only, the
  call is never rejected with the first-pass error, and it is rejected with the
  post-handshake error only when the peer address read after the handshake is classified
  as private, which then is not the address dialed.\<close>

theorem public_answer_failures:
  assumes "parse_url e raw = Some u" "resolve4 e (hostname u) = Inr ips"
    "\<forall>a\<in>set ips. \<not> PRIVATE_test a"
  shows "fst (safeFetch e raw) \<noteq> Inl (Error msg_private_first)
    \<and> (fst (safeFetch e raw) = Inl (Error msg_private_post) \<longrightarrow>
         (\<exists>t remote. socket_connect e 443 (first_ip ips) = ConnectAt t remote
            \<and> PRIVATE_test (to_string remote) \<and> remote \<noteq> first_ip ips))"
proof -
  have dialed: "\<not> PRIVATE_test (to_string (first_ip ips))"
    using assms(3)
    by (cases ips) (simp_all add: first_ip_def to_string_def PRIVATE_test_def)
  show ?thesis
    using assms
  proof (cases rule: safeFetch_cases [where e = e and raw = raw])
    case (rebinding u' ips' t remote)
    then have "remote \<noteq> first_ip ips" using dialed assms by auto
    then show ?thesis using rebinding assms by (simp add: msgs_distinct)
  qed (auto simp: msgs_distinct list_ex_iff)
qed

theorem public_answer_failures_witness:
  "\<not> PRIVATE_test ''93.184.216.34''
   \<and> fst (safeFetch (run_env [''93.184.216.34''] (ConnectAt 20 (Some ''93.184.216.34'')))
        ''https://example.com/a.png'') \<noteq> Inl (Error msg_private_first)
   \<and> fst (safeFetch (run_env [''93.184.216.34''] (ConnectAt 20 (Some ''93.184.216.34'')))
        ''https://example.com/a.png'') \<noteq> Inl (Error msg_private_post)"
proof -
  let ?e = "run_env [''93.184.216.34''] (ConnectAt 20 (Some ''93.184.216.34''))"
  have a: "parse_url ?e ''https://example.com/a.png''
      = Some \<lparr>protocol = ''https:'', hostname = ''example.com'', port = None\<rparr>"
    by (simp add: run_env_def parse_example_def)
  have b: "resolve4 ?e (hostname \<lparr>protocol = ''https:'', hostname = ''example.com'', port = None\<rparr>)
      = Inr [''93.184.216.34'']"
    by (simp add: run_env_def)
  have c: "\<forall>a\<in>set [''93.184.216.34'']. \<not> PRIVATE_test a"
    by (simp add: PRIVATE_test_def)
  have s: "socket_connect ?e 443 (first_ip [''93.184.216.34'']) = ConnectAt 20 (Some ''93.184.216.34'')"
    by (simp add: run_env_def)
  show ?thesis
    using public_answer_failures [OF a b c] c s by (auto simp: first_ip_def)
qed

text \<open>C10. For a URL that passes the gate and the first classification, the handshake
  connects to port 443 and to no other port, and every fetch is of \<open>raw\<close> as given; so
  when the URL names a port other than 443, the port of the handshake is not the port the
  content is fetched from.\<close>

theorem handshake_port_fixed:
  assumes "parse_url e raw = Some u" "protocol u = ''https:''"
    "resolve4 e (hostname u) = Inr ips" "\<not> list_ex PRIVATE_test ips"
  shows "SocketConnect 443 (first_ip ips) \<in> set (snd (safeFetch e raw))
    \<and> (\<forall>p target. SocketConnect p target \<in> set (snd (safeFetch e raw)) \<longrightarrow> p = 443)
    \<and> (\<forall>x. Fetch x \<in> set (snd (safeFetch e raw)) \<longrightarrow> x = raw)
    \<and> (\<forall>q. port u = Some q \<and> q \<noteq> 443 \<longrightarrow>
          (\<forall>p target. SocketConnect p target \<in> set (snd (safeFetch e raw)) \<longrightarrow>
             p \<noteq> effective_port u))"
  using assms
  by (cases rule: safeFetch_cases [where e = e and raw = raw])
     (auto simp: effective_port_def)

theorem handshake_port_fixed_witness:
  "SocketConnect 443 (Some ''93.184.216.34'')
     \<in> set (snd (safeFetch (run_env [''93.184.216.34''] (ConnectAt 40 (Some ''93.184.216.34'')))
          ''https://example.com:8443/a.png''))
   \<and> Fetch ''https://example.com:8443/a.png''
     \<in> set (snd (safeFetch (run_env [''93.184.216.34''] (ConnectAt 40 (Some ''93.184.216.34'')))
          ''https://example.com:8443/a.png''))
   \<and> effective_port \<lparr>protocol = ''https:'', hostname = ''example.com'', port = Some 8443\<rparr> = 8443"
proof -
  let ?e = "run_env [''93.184.216.34''] (ConnectAt 40 (Some ''93.184.216.34''))"
  let ?raw = "''https://example.com:8443/a.png''"
  have a: "parse_url ?e ?raw
      = Some \<lparr>protocol = ''https:'', hostname = ''example.com'', port = Some 8443\<rparr>"
    by (simp add: run_env_def parse_example_def)
  have b: "resolve4 ?e (hostname \<lparr>protocol = ''https:'', hostname = ''example.com'', port = Some 8443\<rparr>)
      = Inr [''93.184.216.34'']"
    by (simp add: run_env_def)
  have c: "\<not> list_ex PRIVATE_test [''93.184.216.34'']"
    by (simp add: PRIVATE_test_def)
  have f: "Fetch ?raw \<in> set (snd (safeFetch ?e ?raw))"
    by (simp add: run_simps)
  have p: "effective_port \<lparr>protocol = ''https:'', hostname = ''example.com'', port = Some 8443\<rparr> = 8443"
    by (simp add: effective_port_def)
  show ?thesis
    using handshake_port_fixed [OF a _ b c] f p by (simp add: first_ip_def)
qed

end
